theory Spec2Isabelle
  imports Main
begin

section \<open>Entities and the document store\<close>

text \<open>
  The entity classes of the repository, as records. The identifier field \<^verbatim>\<open>_id\<close> of
  every class is the field ending in \<open>_id\<close>; JavaScript numbers that hold counts, ratings
  and timestamps are integers.
\<close>

record cross_reference =
  cr_id :: string
  cr_from :: string
  cr_to :: string

record label =
  la_id :: string
  la_name :: string
  la_aliases :: "string list"

record actor =
  ac_id :: string
  ac_name :: string
  ac_aliases :: "string list"

record scene =
  sc_id :: string
  sc_name :: string

text \<open>Class \<^verbatim>\<open>Marker\<close>: the fields the search layer and the label relation read.\<close>

record marker =
  mk_id :: string
  mk_name :: string
  mk_addedOn :: int
  mk_favorite :: bool
  mk_bookmark :: "int option"
  mk_rating :: int
  mk_scene :: string

text \<open>The collections of \<^verbatim>\<open>database.store\<close> that the modelled functions touch.\<close>

record database =
  crossReferences :: "cross_reference list"
  labels :: "label list"
  scenes :: "scene list"
  actors :: "actor list"

text \<open>
  Modelled from the spec: the module \<^verbatim>\<open>database\<close> (find, findOne, insert, remove) is
  not among the source files. The spec gives its contract as
  \<^verbatim>\<open>find(predicate) -> Entity[]\<close>, \<^verbatim>\<open>findOne(predicate) -> Entity|null\<close>,
  \<^verbatim>\<open>insert(doc)\<close>, \<^verbatim>\<open>remove(predicate)\<close>; a collection is the list of its documents in
  insertion order.
\<close>

definition database_find :: "'a list \<Rightarrow> ('a \<Rightarrow> bool) \<Rightarrow> 'a list" where
  "database_find store p = filter p store"

definition database_findOne :: "'a list \<Rightarrow> ('a \<Rightarrow> bool) \<Rightarrow> 'a option" where
  "database_findOne store p = find p store"

definition database_insert :: "'a list \<Rightarrow> 'a \<Rightarrow> 'a list" where
  "database_insert store doc = store @ [doc]"

definition database_remove :: "'a list \<Rightarrow> ('a \<Rightarrow> bool) \<Rightarrow> 'a list" where
  "database_remove store p = filter (\<lambda>d. \<not> p d) store"

text \<open>\<^verbatim>\<open>String.prototype.startsWith\<close>.\<close>

definition startsWith :: "string \<Rightarrow> string \<Rightarrow> bool" where
  "startsWith s p = (take (length p) s = p)"

text \<open>
  \<^verbatim>\<open>[...new Set(xs)]\<close>: a JavaScript Set keeps each value once, in the order of first
  insertion.
\<close>

definition js_Set :: "'a list \<Rightarrow> 'a list" where
  "js_Set xs = fold (\<lambda>x acc. if x \<in> set acc then acc else acc @ [x]) xs []"

text \<open>
  Modelled from the spec: \<^verbatim>\<open>mapAsync\<close> of the utility module is not among the source
  files; it applies the function to every element and collects the results in order.
\<close>

definition mapAsync :: "'a list \<Rightarrow> ('a \<Rightarrow> 'b) \<Rightarrow> 'b list" where
  "mapAsync xs f = map f xs"

section \<open>The cross-reference store and the label relation of a marker\<close>

text \<open>
  Modelled from the spec: class \<^verbatim>\<open>CrossReference\<close> is not among the source files. Its
  documents are shaped \<^verbatim>\<open>{_id, from, to}\<close> and \<^verbatim>\<open>getBySource(from)\<close> is the lookup by
  source. The constructor draws a fresh \<^verbatim>\<open>_id\<close>; the model takes it as an argument.
\<close>

definition new_CrossReference :: "string \<Rightarrow> string \<Rightarrow> string \<Rightarrow> cross_reference" where
  "new_CrossReference h f t = \<lparr>cr_id = h, cr_from = f, cr_to = t\<rparr>"

definition CrossReference_getBySource :: "database \<Rightarrow> string \<Rightarrow> cross_reference list" where
  "CrossReference_getBySource db src =
     database_find (crossReferences db) (\<lambda>r. cr_from r = src)"

text \<open>
  The first loop of \<^verbatim>\<open>Marker.setLabels\<close>: one \<^verbatim>\<open>database.remove\<close> by \<^verbatim>\<open>_id\<close> for each
  old label reference.
\<close>

fun removeReferences :: "string list \<Rightarrow> cross_reference list \<Rightarrow> cross_reference list" where
  "removeReferences [] store = store"
| "removeReferences (i # ids) store =
     removeReferences ids (database_remove store (\<lambda>r. cr_id r = i))"

text \<open>
  The second loop: one \<^verbatim>\<open>database.insert\<close> of a new cross-reference for each element
  of the Set. \<open>generateHash\<close> is the stream of identifiers the constructor draws from,
  \<open>k\<close> the number of identifiers drawn so far.
\<close>

fun insertReferences ::
  "(nat \<Rightarrow> string) \<Rightarrow> nat \<Rightarrow> string \<Rightarrow> string list \<Rightarrow> cross_reference list \<Rightarrow> cross_reference list"
where
  "insertReferences generateHash k src [] store = store"
| "insertReferences generateHash k src (i # ids) store =
     insertReferences generateHash (Suc k) src ids
       (database_insert store (new_CrossReference (generateHash k) src i))"

definition setLabels :: "(nat \<Rightarrow> string) \<Rightarrow> database \<Rightarrow> marker \<Rightarrow> string list \<Rightarrow> database" where
  "setLabels generateHash db m labelIds =
     (let references = CrossReference_getBySource db (mk_id m);
          oldLabelReferences =
            map cr_id (filter (\<lambda>r. startsWith (cr_to r) ''la_'') references);
          store1 = removeReferences oldLabelReferences (crossReferences db);
          store2 = insertReferences generateHash 0 (mk_id m) (js_Set labelIds) store1
      in db\<lparr>crossReferences := store2\<rparr>)"

text \<open>
  Two values of \<^verbatim>\<open>Marker.setLabels\<close> by themselves, for the statements below: the
  identifiers in its variable \<^verbatim>\<open>oldLabelReferences\<close>, and the documents its second loop
  inserts for a list of identifiers.
\<close>

definition oldLabelReferences :: "database \<Rightarrow> marker \<Rightarrow> string list" where
  "oldLabelReferences db m =
     map cr_id
       (filter (\<lambda>r. startsWith (cr_to r) ''la_'') (CrossReference_getBySource db (mk_id m)))"

definition insertedReferences ::
  "(nat \<Rightarrow> string) \<Rightarrow> marker \<Rightarrow> string list \<Rightarrow> cross_reference list"
where
  "insertedReferences generateHash m ids =
     map (\<lambda>(j, i). new_CrossReference (generateHash j) (mk_id m) i) (zip [0 ..< length ids] ids)"

text \<open>The edge a cross-reference stands for, and the label edges of a source.\<close>

definition edge :: "cross_reference \<Rightarrow> string \<times> string" where
  "edge r = (cr_from r, cr_to r)"

definition labelEdges :: "database \<Rightarrow> string \<Rightarrow> (string \<times> string) list" where
  "labelEdges db src =
     map edge (filter (\<lambda>r. startsWith (cr_to r) ''la_'') (CrossReference_getBySource db src))"

section \<open>The marker search document\<close>

text \<open>Interface \<^verbatim>\<open>IMarkerSearchDoc\<close>.\<close>

record marker_search_doc =
  d_id :: string
  d_addedOn :: int
  d_name :: string
  d_actors :: "string list"
  d_actorNames :: "string list"
  d_labels :: "string list"
  d_labelNames :: "string list"
  d_rating :: int
  d_bookmark :: "int option"
  d_favorite :: bool
  d_scene :: string
  d_sceneName :: string

text \<open>
  Modelled from the spec: \<^verbatim>\<open>Label.getById\<close>, \<^verbatim>\<open>Scene.getById\<close> and \<^verbatim>\<open>Actor.getById\<close> are
  not among the source files; each is the store's \<^verbatim>\<open>findOne\<close> on \<^verbatim>\<open>_id\<close>, as
  \<^verbatim>\<open>Marker.getById\<close> is in the source. \<^verbatim>\<open>Label.remove\<close> is the store's \<^verbatim>\<open>remove\<close> on
  \<^verbatim>\<open>_id\<close>, as \<^verbatim>\<open>Marker.remove\<close> is.
\<close>

definition Label_getById :: "database \<Rightarrow> string \<Rightarrow> label option" where
  "Label_getById db i = database_findOne (labels db) (\<lambda>l. la_id l = i)"

definition Scene_getById :: "database \<Rightarrow> string \<Rightarrow> scene option" where
  "Scene_getById db i = database_findOne (scenes db) (\<lambda>s. sc_id s = i)"

definition Actor_getById :: "database \<Rightarrow> string \<Rightarrow> actor option" where
  "Actor_getById db i = database_findOne (actors db) (\<lambda>a. ac_id a = i)"

definition Label_remove :: "database \<Rightarrow> string \<Rightarrow> database" where
  "Label_remove db i = db\<lparr>labels := database_remove (labels db) (\<lambda>l. la_id l = i)\<rparr>"

text \<open>\<^verbatim>\<open>.filter(Boolean)\<close> on an array of objects and nulls: the nulls are dropped.\<close>

fun filter_Boolean :: "'a option list \<Rightarrow> 'a list" where
  "filter_Boolean [] = []"
| "filter_Boolean (None # xs) = filter_Boolean xs"
| "filter_Boolean (Some x # xs) = x # filter_Boolean xs"

text \<open>\<^verbatim>\<open>Marker.getLabels\<close>.\<close>

definition getLabels :: "database \<Rightarrow> marker \<Rightarrow> label list" where
  "getLabels db m =
     (let references = CrossReference_getBySource db (mk_id m)
      in filter_Boolean
           (mapAsync (filter (\<lambda>r. startsWith (cr_to r) ''la_'') references)
              (\<lambda>r. Label_getById db (cr_to r))))"

text \<open>
  Modelled from the spec: \<^verbatim>\<open>Scene.getActors\<close> is not among the source files. The spec
  has the scene's actors resolved by cross-reference lookups chained through the scene,
  a reference that no longer resolves omitted, and a marker whose scene was deleted
  given empty scene-derived fields: an absent scene has no actors. The source calls it
  with the result of \<^verbatim>\<open>Scene.getById\<close>, which may be null.
\<close>

definition Scene_getActors :: "database \<Rightarrow> scene option \<Rightarrow> actor list" where
  "Scene_getActors db sc =
     (case sc of
        None \<Rightarrow> []
      | Some s \<Rightarrow>
          filter_Boolean
            (mapAsync (CrossReference_getBySource db (sc_id s))
               (\<lambda>r. Actor_getById db (cr_to r))))"

text \<open>\<^verbatim>\<open>createMarkerSearchDoc\<close>.\<close>

definition createMarkerSearchDoc :: "database \<Rightarrow> marker \<Rightarrow> marker_search_doc" where
  "createMarkerSearchDoc db m =
     (let labels = getLabels db m;
          scene = Scene_getById db (mk_scene m);
          actors = Scene_getActors db scene
      in \<lparr>d_id = mk_id m,
          d_addedOn = mk_addedOn m,
          d_name = mk_name m,
          d_actors = map ac_id actors,
          d_actorNames = concat (map (\<lambda>a. ac_name a # ac_aliases a) actors),
          d_labels = map la_id labels,
          d_labelNames = concat (map (\<lambda>l. la_name l # la_aliases l) labels),
          d_rating = mk_rating m,
          d_bookmark = mk_bookmark m,
          d_favorite = mk_favorite m,
          d_scene = (case scene of Some s \<Rightarrow> sc_id s | None \<Rightarrow> ''''),
          d_sceneName = (case scene of Some s \<Rightarrow> sc_name s | None \<Rightarrow> '''')\<rparr>)"

section \<open>Bulk indexing\<close>

text \<open>
  Modelled from the spec: the index engine is an external collaborator with an operation
  \<^verbatim>\<open>index(docs[])\<close>. The state of the index is the list of the batches it has
  received, oldest first; \<^verbatim>\<open>addMarkerSearchDocs\<close> is the source's wrapper around that
  call.
\<close>

type_synonym index_log = "marker_search_doc list list"

definition addMarkerSearchDocs :: "index_log \<Rightarrow> marker_search_doc list \<Rightarrow> index_log" where
  "addMarkerSearchDocs idx docs = idx @ [docs]"

text \<open>
  \<^verbatim>\<open>argv["index-slice-size"] || 5000\<close>: the configured value, or 5000 when it is undefined
  or zero.
\<close>

definition sliceSize :: "int option \<Rightarrow> int" where
  "sliceSize a = (case a of None \<Rightarrow> 5000 | Some n \<Rightarrow> if n = 0 then 5000 else n)"

text \<open>
  The loop of \<^verbatim>\<open>indexMarkers\<close>. The state is the batch \<open>docs\<close>, the counter
  \<open>numItems\<close> and the index.
\<close>

fun indexMarkers_loop ::
  "database \<Rightarrow> int \<Rightarrow> marker list \<Rightarrow> marker_search_doc list \<times> nat \<times> index_log
     \<Rightarrow> marker_search_doc list \<times> nat \<times> index_log"
where
  "indexMarkers_loop db s [] st = st"
| "indexMarkers_loop db s (m # ms) (docs, numItems, idx) =
     (let docs1 = docs @ [createMarkerSearchDoc db m]
      in if int (length docs1) = s
         then indexMarkers_loop db s ms
                ([], numItems + length docs1, addMarkerSearchDocs idx docs1)
         else indexMarkers_loop db s ms (docs1, numItems, idx))"

text \<open>\<^verbatim>\<open>indexMarkers\<close>: the returned count and the index afterwards.\<close>

definition indexMarkers ::
  "int option \<Rightarrow> database \<Rightarrow> index_log \<Rightarrow> marker list \<Rightarrow> nat \<times> index_log"
where
  "indexMarkers argv db idx markers =
     (case indexMarkers_loop db (sliceSize argv) markers ([], 0, idx) of
        (docs, numItems, idx1) \<Rightarrow>
          if length docs \<noteq> 0
          then (numItems + length docs, addMarkerSearchDocs idx1 docs)
          else (numItems, idx1))"

text \<open>The batches a run of \<^verbatim>\<open>indexMarkers\<close> sends to an index that was empty.\<close>

definition flushes :: "int option \<Rightarrow> database \<Rightarrow> marker list \<Rightarrow> index_log" where
  "flushes argv db markers = snd (indexMarkers argv db [] markers)"

section \<open>Query translation\<close>

text \<open>
  \<^verbatim>\<open>Partial<IMarkerSearchQuery>\<close>: every field may be undefined (\<open>None\<close>).
\<close>

record marker_search_query =
  q_query :: "string option"
  q_favorite :: "bool option"
  q_bookmark :: "bool option"
  q_rating :: "int option"
  q_include :: "string list option"
  q_exclude :: "string list option"
  q_sortBy :: "string option"
  q_sortDir :: "string option"
  q_skip :: "int option"
  q_take :: "int option"
  q_page :: "int option"

text \<open>
  The value of the field \<^verbatim>\<open>sort_type\<close>: a string (a type tag or the shuffle seed),
  \<^verbatim>\<open>undefined\<close>, or a member that the object literal of sort types inherits from
  \<^verbatim>\<open>Object.prototype\<close>.
\<close>

datatype sort_type_value = Str string | Undefined | Inherited string

record sort_options =
  sort_by :: string
  sort_asc :: bool
  sort_type :: sort_type_value

text \<open>
  Modelled from the spec: the leaves of the engine's filter tree are declared in the
  index engine's module, which is not among the source files. The spec names the
  predicates: favorite and bookmark as boolean and existence predicates, rating as
  a floor (at least N), include as the presence of all listed identifiers, exclude as the
  absence of all of them.
\<close>

datatype predicate =
    FavoriteIs bool
  | BookmarkExists bool
  | RatingAtLeast int
  | IncludesAll "string list"
  | ExcludesAll "string list"

datatype filter_tree = Grouping string "filter_tree list" | Leaf predicate

text \<open>\<^verbatim>\<open>filter.children.push(child)\<close>.\<close>

fun push_child :: "filter_tree \<Rightarrow> filter_tree \<Rightarrow> filter_tree" where
  "push_child (Grouping t children) c = Grouping t (children @ [c])"
| "push_child (Leaf p) c = Leaf p"

text \<open>
  Modelled from the spec: \<^verbatim>\<open>filterFavorites\<close>, \<^verbatim>\<open>filterBookmark\<close>, \<^verbatim>\<open>filterRating\<close>,
  \<^verbatim>\<open>filterInclude\<close> and \<^verbatim>\<open>filterExclude\<close> are imported from the module \<^verbatim>\<open>common\<close>,
  which is not among the source files. By the spec each active filter appends one child
  predicate to the grouping and an absent filter appends nothing; a filter is active
  when the query has a value for it.
\<close>

definition filterFavorites :: "filter_tree \<Rightarrow> marker_search_query \<Rightarrow> filter_tree" where
  "filterFavorites f opts =
     (case q_favorite opts of None \<Rightarrow> f | Some b \<Rightarrow> push_child f (Leaf (FavoriteIs b)))"

definition filterBookmark :: "filter_tree \<Rightarrow> marker_search_query \<Rightarrow> filter_tree" where
  "filterBookmark f opts =
     (case q_bookmark opts of None \<Rightarrow> f | Some b \<Rightarrow> push_child f (Leaf (BookmarkExists b)))"

definition filterRating :: "filter_tree \<Rightarrow> marker_search_query \<Rightarrow> filter_tree" where
  "filterRating f opts =
     (case q_rating opts of None \<Rightarrow> f | Some n \<Rightarrow> push_child f (Leaf (RatingAtLeast n)))"

definition filterInclude :: "filter_tree \<Rightarrow> marker_search_query \<Rightarrow> filter_tree" where
  "filterInclude f opts =
     (case q_include opts of None \<Rightarrow> f | Some ids \<Rightarrow> push_child f (Leaf (IncludesAll ids)))"

definition filterExclude :: "filter_tree \<Rightarrow> marker_search_query \<Rightarrow> filter_tree" where
  "filterExclude f opts =
     (case q_exclude opts of None \<Rightarrow> f | Some ids \<Rightarrow> push_child f (Leaf (ExcludesAll ids)))"

text \<open>
  Modelled from the spec: \<^verbatim>\<open>buildPagination\<close> is imported from the module \<^verbatim>\<open>common\<close>,
  which is not among the source files. The arguments are in the order of the call in
  \<^verbatim>\<open>searchMarkers\<close>: take, skip, page. By the spec the input is either a page, with an
  implicit page size, or an explicit skip and take; an explicit skip and take override
  the page, a page \<open>p\<close> gives skip \<open>p * s\<close> and take \<open>s\<close>, and with neither the
  default is skip 0 and take the default page size. The page size is a parameter.
\<close>

record pagination =
  p_skip :: int
  p_take :: int

definition buildPagination ::
  "int \<Rightarrow> int option \<Rightarrow> int option \<Rightarrow> int option \<Rightarrow> pagination"
where
  "buildPagination defaultPageSize take_opt skip_opt page_opt =
     (case (skip_opt, take_opt) of
        (Some sk, Some tk) \<Rightarrow> \<lparr>p_skip = sk, p_take = tk\<rparr>
      | _ \<Rightarrow>
          (case page_opt of
             Some p \<Rightarrow> \<lparr>p_skip = p * defaultPageSize, p_take = defaultPageSize\<rparr>
           | None \<Rightarrow> \<lparr>p_skip = 0, p_take = defaultPageSize\<rparr>))"

text \<open>
  The object literal of sort types in \<^verbatim>\<open>searchMarkers\<close>, and the lookup
  \<^verbatim>\<open>{...}[options.sortBy]\<close>: an own property, else a member inherited from
  \<^verbatim>\<open>Object.prototype\<close>, else \<^verbatim>\<open>undefined\<close>.
\<close>

definition sortTypes :: "(string \<times> string) list" where
  "sortTypes =
     [(''addedOn'', ''number''), (''name'', ''string''),
      (''rating'', ''number''), (''bookmark'', ''number'')]"

definition Object_prototype_members :: "string list" where
  "Object_prototype_members =
     [''constructor'', ''hasOwnProperty'', ''isPrototypeOf'', ''propertyIsEnumerable'',
      ''toLocaleString'', ''toString'', ''valueOf'', ''__proto__'',
      ''__defineGetter__'', ''__defineSetter__'', ''__lookupGetter__'', ''__lookupSetter__'']"

definition sortType_of :: "string \<Rightarrow> sort_type_value" where
  "sortType_of k =
     (case map_of sortTypes k of
        Some t \<Rightarrow> Str t
      | None \<Rightarrow> if k \<in> set Object_prototype_members then Inherited k else Undefined)"

text \<open>The query object that \<^verbatim>\<open>searchMarkers\<close> passes to \<^verbatim>\<open>index.search\<close>.\<close>

record search_request =
  r_query :: "string option"
  r_sort :: "sort_options option"
  r_filter :: filter_tree
  r_skip :: int
  r_take :: int

text \<open>The errors the spec names for the query translator and the document builder.\<close>

datatype error = InvalidSortKey | InvalidFilter | EntityNotFound

text \<open>
  The sort options of \<^verbatim>\<open>searchMarkers\<close>. \<^verbatim>\<open>if (options.sortBy)\<close> is false for
  \<^verbatim>\<open>undefined\<close> and for the empty string.
\<close>

definition sortOptions :: "marker_search_query \<Rightarrow> string \<Rightarrow> sort_options option" where
  "sortOptions opts shuffleSeed =
     (case q_sortBy opts of
        None \<Rightarrow> None
      | Some k \<Rightarrow>
          if k = '''' then None
          else if k = ''$shuffle''
          then Some \<lparr>sort_by = ''$shuffle'', sort_asc = False, sort_type = Str shuffleSeed\<rparr>
          else Some \<lparr>sort_by = k, sort_asc = (q_sortDir opts = Some ''asc''),
                      sort_type = sortType_of k\<rparr>)"

text \<open>The filter tree of \<^verbatim>\<open>searchMarkers\<close>: the five calls in the order of the source.\<close>

definition searchFilter :: "marker_search_query \<Rightarrow> filter_tree" where
  "searchFilter opts =
     (let f0 = Grouping ''AND'' [];
          f1 = filterFavorites f0 opts;
          f2 = filterBookmark f1 opts;
          f3 = filterRating f2 opts;
          f4 = filterInclude f3 opts
      in filterExclude f4 opts)"

text \<open>
  The body of \<^verbatim>\<open>searchMarkers\<close> up to the call of the engine: the query object it
  builds. \<open>seed_opt\<close> is the optional argument \<^verbatim>\<open>shuffleSeed\<close> with its default
  \<^verbatim>\<open>"default"\<close>.
\<close>

definition searchRequest :: "int \<Rightarrow> marker_search_query \<Rightarrow> string option \<Rightarrow> search_request" where
  "searchRequest defaultPageSize opts seed_opt =
     (let shuffleSeed = (case seed_opt of None \<Rightarrow> ''default'' | Some s \<Rightarrow> s);
          sort = sortOptions opts shuffleSeed;
          filter_tree = searchFilter opts;
          pg = buildPagination defaultPageSize (q_take opts) (q_skip opts) (q_page opts)
      in \<lparr>r_query = q_query opts, r_sort = sort, r_filter = filter_tree,
          r_skip = p_skip pg, r_take = p_take pg\<rparr>)"

text \<open>
  \<^verbatim>\<open>searchMarkers\<close>. \<open>search\<close> is \<^verbatim>\<open>index.search\<close> of the external engine. The source
  has no \<^verbatim>\<open>throw\<close>: every path ends in the call of the engine.
\<close>

definition searchMarkers ::
  "(search_request \<Rightarrow> 'r) \<Rightarrow> int \<Rightarrow> marker_search_query \<Rightarrow> string option \<Rightarrow> error + 'r"
where
  "searchMarkers search defaultPageSize opts seed_opt =
     Inr (search (searchRequest defaultPageSize opts seed_opt))"

text \<open>The children of a grouping, and the number of filters a query has a value for.\<close>

fun children :: "filter_tree \<Rightarrow> filter_tree list" where
  "children (Grouping t cs) = cs"
| "children (Leaf p) = []"

definition activeFilters :: "marker_search_query \<Rightarrow> nat" where
  "activeFilters opts =
     (if q_favorite opts = None then 0 else 1) + (if q_bookmark opts = None then 0 else 1)
     + (if q_rating opts = None then 0 else 1) + (if q_include opts = None then 0 else 1)
     + (if q_exclude opts = None then 0 else 1)"

section \<open>Example data\<close>

text \<open>
  A small store: marker \<open>mk_1\<close> of scene \<open>sc_1\<close> carries the labels \<open>la_1\<close> and
  \<open>la_2\<close>, marker \<open>mk_2\<close> the label \<open>la_1\<close>, the scene has one actor, and marker
  \<open>mk_3\<close> refers to a scene that is no longer stored.
\<close>

definition ex_db :: database where
  "ex_db =
     \<lparr>crossReferences =
        [\<lparr>cr_id = ''cr_1'', cr_from = ''mk_1'', cr_to = ''la_1''\<rparr>,
         \<lparr>cr_id = ''cr_2'', cr_from = ''sc_1'', cr_to = ''ac_1''\<rparr>,
         \<lparr>cr_id = ''cr_3'', cr_from = ''mk_2'', cr_to = ''la_1''\<rparr>,
         \<lparr>cr_id = ''cr_4'', cr_from = ''mk_1'', cr_to = ''la_2''\<rparr>,
         \<lparr>cr_id = ''cr_5'', cr_from = ''mk_1'', cr_to = ''im_1''\<rparr>],
      labels =
        [\<lparr>la_id = ''la_1'', la_name = ''outdoor'', la_aliases = [''outside'']\<rparr>,
         \<lparr>la_id = ''la_2'', la_name = ''night'', la_aliases = []\<rparr>],
      scenes = [\<lparr>sc_id = ''sc_1'', sc_name = ''first''\<rparr>],
      actors = [\<lparr>ac_id = ''ac_1'', ac_name = ''Ann'', ac_aliases = [''A'']\<rparr>]\<rparr>"

definition ex_marker :: marker where
  "ex_marker =
     \<lparr>mk_id = ''mk_1'', mk_name = ''intro'', mk_addedOn = 1, mk_favorite = False,
      mk_bookmark = None, mk_rating = 3, mk_scene = ''sc_1''\<rparr>"

definition ex_marker2 :: marker where
  "ex_marker2 =
     \<lparr>mk_id = ''mk_2'', mk_name = ''middle'', mk_addedOn = 2, mk_favorite = True,
      mk_bookmark = Some 7, mk_rating = 5, mk_scene = ''sc_1''\<rparr>"

definition ex_marker3 :: marker where
  "ex_marker3 =
     \<lparr>mk_id = ''mk_3'', mk_name = ''end'', mk_addedOn = 3, mk_favorite = False,
      mk_bookmark = None, mk_rating = 0, mk_scene = ''sc_9''\<rparr>"

definition ex_hash :: "nat \<Rightarrow> string" where
  "ex_hash k = ''cr_n'' @ replicate k (CHR ''x'')"

definition ex_query :: marker_search_query where
  "ex_query =
     \<lparr>q_query = Some ''intro'', q_favorite = None, q_bookmark = None, q_rating = None,
      q_include = None, q_exclude = None, q_sortBy = None, q_sortDir = None,
      q_skip = None, q_take = None, q_page = None\<rparr>"

section \<open>Facts about the label relation\<close>

lemma js_Set_fold_set:
  "set (fold (\<lambda>x acc. if x \<in> set acc then acc else acc @ [x]) xs acc) = set acc \<union> set xs"
  by (induction xs arbitrary: acc) auto

lemma js_Set_fold_distinct:
  "distinct acc \<Longrightarrow>
   distinct (fold (\<lambda>x acc. if x \<in> set acc then acc else acc @ [x]) xs acc)"
  by (induction xs arbitrary: acc) auto

lemma set_js_Set: "set (js_Set xs) = set xs"
  by (simp add: js_Set_def js_Set_fold_set)

lemma distinct_js_Set: "distinct (js_Set xs)"
  by (simp add: js_Set_def js_Set_fold_distinct)

lemma js_Set_xxy: "x \<noteq> y \<Longrightarrow> js_Set [x, x, y] = [x, y]"
  by (simp add: js_Set_def)

lemma removeReferences_filter:
  "removeReferences ids store = filter (\<lambda>r. cr_id r \<notin> set ids) store"
  by (induction ids arbitrary: store) (auto simp: database_remove_def intro: filter_cong)

lemma insertReferences_append:
  "insertReferences g k src ids store =
     store @ map (\<lambda>(j, i). new_CrossReference (g j) src i) (zip [k ..< k + length ids] ids)"
proof (induction ids arbitrary: k store)
  case Nil
  then show ?case by simp
next
  case (Cons i ids)
  have "[k ..< k + length (i # ids)] = k # [Suc k ..< Suc k + length ids]"
    by (subst upt_rec) simp
  then show ?case
    using Cons.IH [of "Suc k"] by (simp add: database_insert_def)
qed

lemma setLabels_store:
  "crossReferences (setLabels g db m labelIds) =
     removeReferences (oldLabelReferences db m) (crossReferences db)
     @ insertedReferences g m (js_Set labelIds)"
  by (simp add: setLabels_def Let_def insertReferences_append
      oldLabelReferences_def insertedReferences_def)

lemma edge_insertedReferences:
  "map edge (insertedReferences g m ids) = map (Pair (mk_id m)) ids"
  by (rule nth_equalityI) (simp_all add: insertedReferences_def edge_def new_CrossReference_def)

lemma from_insertedReferences:
  "r \<in> set (insertedReferences g m ids) \<Longrightarrow> cr_from r = mk_id m \<and> cr_to r \<in> set ids"
  by (auto simp: insertedReferences_def new_CrossReference_def in_set_zip)

lemma kept_no_label_edges:
  "filter (\<lambda>r. cr_from r = mk_id m \<and> startsWith (cr_to r) ''la_'')
     (removeReferences (oldLabelReferences db m) (crossReferences db)) = []"
  by (auto simp: removeReferences_filter filter_empty_conv oldLabelReferences_def
      CrossReference_getBySource_def database_find_def)

lemma labelEdges_filter:
  "labelEdges db src =
     map edge (filter (\<lambda>r. cr_from r = src \<and> startsWith (cr_to r) ''la_'') (crossReferences db))"
proof -
  have "filter (\<lambda>r. startsWith (cr_to r) ''la_'') (filter (\<lambda>r. cr_from r = src) xs)
      = filter (\<lambda>r. cr_from r = src \<and> startsWith (cr_to r) ''la_'') xs" for xs
    by (induction xs) auto
  then show ?thesis
    by (simp add: labelEdges_def CrossReference_getBySource_def database_find_def)
qed

lemma label_edges_inserted:
  "map edge (filter (\<lambda>r. cr_from r = mk_id m \<and> startsWith (cr_to r) ''la_'')
        (insertedReferences g m ids))
     = map (Pair (mk_id m)) (filter (\<lambda>i. startsWith i ''la_'') ids)"
proof -
  have "filter (\<lambda>r. cr_from r = mk_id m \<and> startsWith (cr_to r) ''la_'') (insertedReferences g m ids)
      = filter (\<lambda>r. startsWith (snd (edge r)) ''la_'') (insertedReferences g m ids)"
    by (rule filter_cong) (auto simp: edge_def dest: from_insertedReferences)
  then have "map edge (filter (\<lambda>r. cr_from r = mk_id m \<and> startsWith (cr_to r) ''la_'')
        (insertedReferences g m ids))
      = filter (\<lambda>e. startsWith (snd e) ''la_'') (map edge (insertedReferences g m ids))"
    by (simp add: filter_map comp_def)
  then show ?thesis
    by (simp add: edge_insertedReferences filter_map comp_def)
qed

lemma labelEdges_setLabels:
  "labelEdges (setLabels g db m labelIds) (mk_id m) =
     map (Pair (mk_id m)) (filter (\<lambda>i. startsWith i ''la_'') (js_Set labelIds))"
  by (simp only: labelEdges_filter setLabels_store filter_append kept_no_label_edges
      append_Nil label_edges_inserted)

lemma removeReferences_distinct:
  assumes "distinct (map cr_id (crossReferences db))"
  shows "removeReferences (oldLabelReferences db m) (crossReferences db) =
     filter (\<lambda>r. \<not> (cr_from r = mk_id m \<and> startsWith (cr_to r) ''la_'')) (crossReferences db)"
proof -
  have inj: "inj_on cr_id (set (crossReferences db))"
    using assms by (simp add: distinct_map)
  show ?thesis
    unfolding removeReferences_filter
  proof (rule filter_cong [OF refl])
    fix r assume r: "r \<in> set (crossReferences db)"
    show "(cr_id r \<notin> set (oldLabelReferences db m)) =
          (\<not> (cr_from r = mk_id m \<and> startsWith (cr_to r) ''la_''))"
      using r inj
      by (auto simp: oldLabelReferences_def CrossReference_getBySource_def database_find_def
          dest: inj_onD)
  qed
qed

text \<open>
  C1. \<^verbatim>\<open>Marker.setLabels\<close> removes the cross-references named in
  \<^verbatim>\<open>oldLabelReferences\<close>, after which no edge from the marker to a label-prefixed
  target is left, and then appends one cross-reference from the marker for each element
  of the Set of the given identifiers, which holds every given identifier once. The label
  edges of the marker afterwards are the label-prefixed identifiers of that Set; for
  \<^verbatim>\<open>[x, x, y]\<close> with two different label identifiers they are the two edges to \<open>x\<close> and
  to \<open>y\<close>. A repeated identifier is no error: the result is a store.
\<close>

theorem setLabels_replaces_label_edges:
  "map edge (crossReferences (setLabels g db m labelIds)) =
     map edge (removeReferences (oldLabelReferences db m) (crossReferences db))
       @ map (Pair (mk_id m)) (js_Set labelIds)
   \<and> filter (\<lambda>r. cr_from r = mk_id m \<and> startsWith (cr_to r) ''la_'')
       (removeReferences (oldLabelReferences db m) (crossReferences db)) = []
   \<and> distinct (js_Set labelIds) \<and> set (js_Set labelIds) = set labelIds
   \<and> labelEdges (setLabels g db m labelIds) (mk_id m) =
       map (Pair (mk_id m)) (filter (\<lambda>i. startsWith i ''la_'') (js_Set labelIds))
   \<and> (x \<noteq> y \<and> startsWith x ''la_'' \<and> startsWith y ''la_'' \<longrightarrow>
       labelEdges (setLabels g db m [x, x, y]) (mk_id m) = [(mk_id m, x), (mk_id m, y)])"
proof -
  have "map edge (crossReferences (setLabels g db m labelIds)) =
     map edge (removeReferences (oldLabelReferences db m) (crossReferences db))
       @ map (Pair (mk_id m)) (js_Set labelIds)"
    by (simp add: setLabels_store edge_insertedReferences)
  moreover have "x \<noteq> y \<and> startsWith x ''la_'' \<and> startsWith y ''la_'' \<longrightarrow>
       labelEdges (setLabels g db m [x, x, y]) (mk_id m) = [(mk_id m, x), (mk_id m, y)]"
    by (simp add: labelEdges_setLabels js_Set_xxy)
  ultimately show ?thesis
    by (simp add: kept_no_label_edges distinct_js_Set set_js_Set labelEdges_setLabels)
qed

theorem setLabels_replaces_label_edges_witness:
  "''la_2'' \<noteq> ''la_3'' \<and> startsWith ''la_2'' ''la_'' \<and> startsWith ''la_3'' ''la_''
   \<and> labelEdges (setLabels ex_hash ex_db ex_marker [''la_2'', ''la_2'', ''la_3'']) ''mk_1''
       = [(''mk_1'', ''la_2''), (''mk_1'', ''la_3'')]"
proof -
  have h: "''la_2'' \<noteq> ''la_3'' \<and> startsWith ''la_2'' ''la_'' \<and> startsWith ''la_3'' ''la_''"
    by (simp add: startsWith_def)
  from setLabels_replaces_label_edges
    [where g = ex_hash and db = ex_db and m = ex_marker and x = "''la_2''" and y = "''la_3''"
       and labelIds = "[]"] h
  have "labelEdges (setLabels ex_hash ex_db ex_marker [''la_2'', ''la_2'', ''la_3''])
      (mk_id ex_marker) = [(mk_id ex_marker, ''la_2''), (mk_id ex_marker, ''la_3'')]"
    by blast
  with h show ?thesis
    by (simp add: ex_marker_def)
qed

text \<open>
  C10. In a store whose documents have distinct \<^verbatim>\<open>_id\<close>s, \<^verbatim>\<open>Marker.setLabels\<close> keeps, in
  their order, exactly the cross-references that are not edges from the marker to a
  label-prefixed target, and appends its new ones. The cross-references of every other
  source are the same before and after; when every given identifier carries the label
  prefix, so are the cross-references to targets without that prefix; the other
  collections are untouched.
\<close>

theorem setLabels_frame:
  assumes "distinct (map cr_id (crossReferences db))"
  shows "crossReferences (setLabels g db m labelIds) =
           filter (\<lambda>r. \<not> (cr_from r = mk_id m \<and> startsWith (cr_to r) ''la_''))
             (crossReferences db)
           @ insertedReferences g m (js_Set labelIds)
         \<and> filter (\<lambda>r. cr_from r \<noteq> mk_id m) (crossReferences (setLabels g db m labelIds))
             = filter (\<lambda>r. cr_from r \<noteq> mk_id m) (crossReferences db)
         \<and> ((\<forall>i \<in> set labelIds. startsWith i ''la_'') \<longrightarrow>
              filter (\<lambda>r. \<not> startsWith (cr_to r) ''la_'')
                (crossReferences (setLabels g db m labelIds))
              = filter (\<lambda>r. \<not> startsWith (cr_to r) ''la_'') (crossReferences db))
         \<and> labels (setLabels g db m labelIds) = labels db
         \<and> scenes (setLabels g db m labelIds) = scenes db
         \<and> actors (setLabels g db m labelIds) = actors db"
proof -
  let ?new = "insertedReferences g m (js_Set labelIds)"
  let ?kept = "filter (\<lambda>r. \<not> (cr_from r = mk_id m \<and> startsWith (cr_to r) ''la_''))
             (crossReferences db)"
  have store: "crossReferences (setLabels g db m labelIds) = ?kept @ ?new"
    by (simp add: setLabels_store removeReferences_distinct [OF assms])
  have new_other: "filter (\<lambda>r. cr_from r \<noteq> mk_id m) ?new = []"
    by (auto simp: filter_empty_conv dest: from_insertedReferences)
  have kept_other: "filter (\<lambda>r. cr_from r \<noteq> mk_id m) ?kept
      = filter (\<lambda>r. cr_from r \<noteq> mk_id m) (crossReferences db)"
    by (auto intro: filter_cong)
  have other: "filter (\<lambda>r. cr_from r \<noteq> mk_id m) (crossReferences (setLabels g db m labelIds))
             = filter (\<lambda>r. cr_from r \<noteq> mk_id m) (crossReferences db)"
    by (simp only: store filter_append new_other kept_other append_Nil2)
  have nonlabel: "filter (\<lambda>r. \<not> startsWith (cr_to r) ''la_'')
                (crossReferences (setLabels g db m labelIds))
              = filter (\<lambda>r. \<not> startsWith (cr_to r) ''la_'') (crossReferences db)"
    if all: "\<forall>i \<in> set labelIds. startsWith i ''la_''"
  proof -
    have "filter (\<lambda>r. \<not> startsWith (cr_to r) ''la_'') ?new = []"
      using all by (auto simp: filter_empty_conv set_js_Set dest: from_insertedReferences)
    moreover have "filter (\<lambda>r. \<not> startsWith (cr_to r) ''la_'') ?kept
        = filter (\<lambda>r. \<not> startsWith (cr_to r) ''la_'') (crossReferences db)"
      by (auto intro: filter_cong)
    ultimately show ?thesis
      by (simp only: store filter_append append_Nil2)
  qed
  have rest: "labels (setLabels g db m labelIds) = labels db
         \<and> scenes (setLabels g db m labelIds) = scenes db
         \<and> actors (setLabels g db m labelIds) = actors db"
    by (simp add: setLabels_def Let_def)
  from store other nonlabel rest show ?thesis by blast
qed

theorem setLabels_frame_witness:
  "distinct (map cr_id (crossReferences ex_db))
   \<and> crossReferences (setLabels ex_hash ex_db ex_marker [''la_3'']) =
       [\<lparr>cr_id = ''cr_2'', cr_from = ''sc_1'', cr_to = ''ac_1''\<rparr>,
        \<lparr>cr_id = ''cr_3'', cr_from = ''mk_2'', cr_to = ''la_1''\<rparr>,
        \<lparr>cr_id = ''cr_5'', cr_from = ''mk_1'', cr_to = ''im_1''\<rparr>,
        \<lparr>cr_id = ''cr_n'', cr_from = ''mk_1'', cr_to = ''la_3''\<rparr>]
   \<and> filter (\<lambda>r. \<not> startsWith (cr_to r) ''la_'')
       (crossReferences (setLabels ex_hash ex_db ex_marker [''la_3'']))
       = filter (\<lambda>r. \<not> startsWith (cr_to r) ''la_'') (crossReferences ex_db)"
proof -
  have d: "distinct (map cr_id (crossReferences ex_db))"
    by (simp add: ex_db_def)
  have l: "\<forall>i \<in> set [''la_3'']. startsWith i ''la_''"
    by (simp add: startsWith_def)
  have s: "js_Set [''la_3''] = [''la_3'']"
    by (simp add: js_Set_def)
  from setLabels_frame [OF d, of ex_hash ex_marker "[''la_3'']"] l
  have "crossReferences (setLabels ex_hash ex_db ex_marker [''la_3'']) =
           filter (\<lambda>r. \<not> (cr_from r = mk_id ex_marker \<and> startsWith (cr_to r) ''la_''))
             (crossReferences ex_db)
           @ insertedReferences ex_hash ex_marker (js_Set [''la_3''])"
    and "filter (\<lambda>r. \<not> startsWith (cr_to r) ''la_'')
       (crossReferences (setLabels ex_hash ex_db ex_marker [''la_3'']))
       = filter (\<lambda>r. \<not> startsWith (cr_to r) ''la_'') (crossReferences ex_db)"
    by blast+
  then show ?thesis
    using d
    by (simp add: s insertedReferences_def new_CrossReference_def ex_hash_def ex_db_def
        ex_marker_def startsWith_def)
qed

section \<open>Facts about bulk indexing\<close>

lemma indexMarkers_loop_append:
  "indexMarkers_loop db s (xs @ ys) st = indexMarkers_loop db s ys (indexMarkers_loop db s xs st)"
proof (induction xs arbitrary: st)
  case Nil
  then show ?case by simp
next
  case (Cons x xs)
  obtain docs n idx where st: "st = (docs, n, idx)"
    by (cases st) auto
  show ?case
    unfolding st by (simp add: Let_def Cons.IH)
qed

lemma indexMarkers_loop_count:
  "indexMarkers_loop db s ms (docs, n, idx) = (docs', n', idx') \<Longrightarrow>
   n' + length docs' = n + length docs + length ms"
proof (induction ms arbitrary: docs n idx)
  case Nil
  then show ?case by simp
next
  case (Cons m ms)
  show ?case
  proof (cases "int (length (docs @ [createMarkerSearchDoc db m])) = s")
    case True
    with Cons.prems have
      "indexMarkers_loop db s ms
         ([], n + length (docs @ [createMarkerSearchDoc db m]),
          addMarkerSearchDocs idx (docs @ [createMarkerSearchDoc db m])) = (docs', n', idx')"
      by (simp add: Let_def)
    from Cons.IH [OF this] show ?thesis by simp
  next
    case False
    with Cons.prems have
      "indexMarkers_loop db s ms (docs @ [createMarkerSearchDoc db m], n, idx) = (docs', n', idx')"
      by (simp add: Let_def)
    from Cons.IH [OF this] show ?thesis by simp
  qed
qed

lemma indexMarkers_loop_below:
  "int (length docs + length ms) < s \<Longrightarrow>
   indexMarkers_loop db s ms (docs, n, idx) = (docs @ map (createMarkerSearchDoc db) ms, n, idx)"
  by (induction ms arbitrary: docs) (auto simp: Let_def)

lemma indexMarkers_loop_reach:
  assumes "ms \<noteq> []" and "int (length docs + length ms) = s"
  shows "indexMarkers_loop db s ms (docs, n, idx) =
     ([], n + (length docs + length ms), idx @ [docs @ map (createMarkerSearchDoc db) ms])"
proof -
  from assms(1) obtain xs x where ms: "ms = xs @ [x]"
    by (cases ms rule: rev_cases) auto
  have "int (length docs + length xs) < s"
    using assms(2) ms by simp
  then have "indexMarkers_loop db s xs (docs, n, idx) =
      (docs @ map (createMarkerSearchDoc db) xs, n, idx)"
    by (rule indexMarkers_loop_below)
  then show ?thesis
    using assms(2) unfolding ms indexMarkers_loop_append
    by (simp add: Let_def addMarkerSearchDocs_def)
qed

lemma indexMarkers_loop_invariant:
  assumes "0 < s" and "int (length docs) < s"
    and "indexMarkers_loop db s ms (docs, n, idx) = (docs', n', idx')"
  shows "\<exists>new. idx' = idx @ new \<and> (\<forall>b \<in> set new. int (length b) = s)
           \<and> concat new @ docs' = docs @ map (createMarkerSearchDoc db) ms
           \<and> int (length docs') < s"
  using assms(2,3)
proof (induction ms arbitrary: docs n idx)
  case Nil
  then show ?case by simp
next
  case (Cons m ms)
  let ?docs1 = "docs @ [createMarkerSearchDoc db m]"
  show ?case
  proof (cases "int (length ?docs1) = s")
    case True
    with Cons.prems(2) have run:
      "indexMarkers_loop db s ms ([], n + length ?docs1, idx @ [?docs1]) = (docs', n', idx')"
      by (simp add: Let_def addMarkerSearchDocs_def)
    have "int (length ([] :: marker_search_doc list)) < s"
      using assms(1) by simp
    from Cons.IH [OF this run] obtain new where
      new: "idx' = (idx @ [?docs1]) @ new" "\<forall>b \<in> set new. int (length b) = s"
        "concat new @ docs' = [] @ map (createMarkerSearchDoc db) ms" "int (length docs') < s"
      by blast
    have "idx' = idx @ (?docs1 # new)"
      using new(1) by simp
    moreover have "\<forall>b \<in> set (?docs1 # new). int (length b) = s"
      using new(2) True by simp
    moreover have "concat (?docs1 # new) @ docs' = docs @ map (createMarkerSearchDoc db) (m # ms)"
      using new(3) by simp
    ultimately show ?thesis
      using new(4) by blast
  next
    case False
    with Cons.prems(2) have run:
      "indexMarkers_loop db s ms (?docs1, n, idx) = (docs', n', idx')"
      by (simp add: Let_def)
    have "int (length ?docs1) < s"
      using Cons.prems(1) False by simp
    from Cons.IH [OF this run] show ?thesis
      by simp
  qed
qed

lemma indexMarkers_snd:
  "snd (indexMarkers argv db idx markers) =
     (case indexMarkers_loop db (sliceSize argv) markers ([], 0, idx) of
        (docs, numItems, idx1) \<Rightarrow> if docs = [] then idx1 else idx1 @ [docs])"
  by (simp add: indexMarkers_def addMarkerSearchDocs_def split: prod.splits)

lemma indexMarkers_loop_indexed:
  "indexMarkers_loop db s ms (docs, n, idx) = (docs', n', idx') \<Longrightarrow>
   \<exists>new. idx' = idx @ new
     \<and> concat new @ docs' = docs @ map (createMarkerSearchDoc db) ms
     \<and> n' = n + length (concat new)"
proof (induction ms arbitrary: docs n idx)
  case Nil
  then show ?case by simp
next
  case (Cons m ms)
  let ?docs1 = "docs @ [createMarkerSearchDoc db m]"
  show ?case
  proof (cases "int (length ?docs1) = s")
    case True
    with Cons.prems have run:
      "indexMarkers_loop db s ms ([], n + length ?docs1, idx @ [?docs1]) = (docs', n', idx')"
      by (simp add: Let_def addMarkerSearchDocs_def)
    from Cons.IH [OF run] obtain new where
      new: "idx' = (idx @ [?docs1]) @ new"
        "concat new @ docs' = [] @ map (createMarkerSearchDoc db) ms"
        "n' = n + length ?docs1 + length (concat new)"
      by blast
    have "idx' = idx @ (?docs1 # new)"
      using new(1) by simp
    moreover have "concat (?docs1 # new) @ docs' = docs @ map (createMarkerSearchDoc db) (m # ms)"
      using new(2) by simp
    moreover have "n' = n + length (concat (?docs1 # new))"
      using new(3) by simp
    ultimately show ?thesis by blast
  next
    case False
    with Cons.prems have run:
      "indexMarkers_loop db s ms (?docs1, n, idx) = (docs', n', idx')"
      by (simp add: Let_def)
    from Cons.IH [OF run] show ?thesis
      by simp
  qed
qed

lemma indexMarkers_indexed:
  "\<exists>new. snd (indexMarkers argv db idx markers) = idx @ new
     \<and> concat new = map (createMarkerSearchDoc db) markers
     \<and> fst (indexMarkers argv db idx markers) = length (concat new)"
proof -
  obtain docs n idx1 where
    run: "indexMarkers_loop db (sliceSize argv) markers ([], 0, idx) = (docs, n, idx1)"
    by (cases "indexMarkers_loop db (sliceSize argv) markers ([], 0, idx)") auto
  from indexMarkers_loop_indexed [OF run] obtain new where
    new: "idx1 = idx @ new" "concat new @ docs = map (createMarkerSearchDoc db) markers"
      "n = length (concat new)"
    by auto
  show ?thesis
  proof (cases "docs = []")
    case True
    have "snd (indexMarkers argv db idx markers) = idx @ new"
      "fst (indexMarkers argv db idx markers) = length (concat new)"
      using True new(1,3) by (simp_all add: indexMarkers_def run)
    moreover have "concat new = map (createMarkerSearchDoc db) markers"
      using new(2) True by simp
    ultimately show ?thesis by blast
  next
    case False
    have "snd (indexMarkers argv db idx markers) = idx @ (new @ [docs])"
      "fst (indexMarkers argv db idx markers) = length (concat (new @ [docs]))"
      using False new(1,3) by (simp_all add: indexMarkers_def run addMarkerSearchDocs_def)
    moreover have "concat (new @ [docs]) = map (createMarkerSearchDoc db) markers"
      using new(2) by simp
    ultimately show ?thesis by blast
  qed
qed

text \<open>
  C9. Whatever the slice size and the index before, \<^verbatim>\<open>indexMarkers\<close> leaves the batches
  the index already held in place and appends new ones; the documents of the new
  batches, in order, are the documents of the given markers, one for each marker; and
  the number it returns is the number of documents in the new batches, which is the
  number of markers.
\<close>

theorem indexMarkers_count:
  "take (length idx) (snd (indexMarkers argv db idx markers)) = idx
   \<and> concat (drop (length idx) (snd (indexMarkers argv db idx markers)))
       = map (createMarkerSearchDoc db) markers
   \<and> fst (indexMarkers argv db idx markers)
       = length (concat (drop (length idx) (snd (indexMarkers argv db idx markers))))
   \<and> fst (indexMarkers argv db idx markers)
       = sum_list (map length (drop (length idx) (snd (indexMarkers argv db idx markers))))
   \<and> fst (indexMarkers argv db idx markers) = length markers"
proof -
  from indexMarkers_indexed [of argv db idx markers] obtain new where
    new: "snd (indexMarkers argv db idx markers) = idx @ new"
      "concat new = map (createMarkerSearchDoc db) markers"
      "fst (indexMarkers argv db idx markers) = length (concat new)"
    by blast
  have d: "drop (length idx) (snd (indexMarkers argv db idx markers)) = new"
    "take (length idx) (snd (indexMarkers argv db idx markers)) = idx"
    by (simp_all add: new(1))
  have "fst (indexMarkers argv db idx markers) = length markers"
    using new(2,3) by simp
  moreover have "length (concat new) = sum_list (map length new)"
    by (simp add: length_concat)
  ultimately show ?thesis
    using new(2,3) by (simp add: d)
qed

theorem indexMarkers_count_witness:
  "fst (indexMarkers (Some 2) ex_db [[createMarkerSearchDoc ex_db ex_marker]]
         [ex_marker, ex_marker2, ex_marker3]) = 3
   \<and> take 1 (snd (indexMarkers (Some 2) ex_db [[createMarkerSearchDoc ex_db ex_marker]]
         [ex_marker, ex_marker2, ex_marker3])) = [[createMarkerSearchDoc ex_db ex_marker]]
   \<and> concat (drop 1 (snd (indexMarkers (Some 2) ex_db [[createMarkerSearchDoc ex_db ex_marker]]
         [ex_marker, ex_marker2, ex_marker3])))
       = [createMarkerSearchDoc ex_db ex_marker, createMarkerSearchDoc ex_db ex_marker2,
          createMarkerSearchDoc ex_db ex_marker3]
   \<and> length (concat (drop 1 (snd (indexMarkers (Some 2) ex_db
         [[createMarkerSearchDoc ex_db ex_marker]] [ex_marker, ex_marker2, ex_marker3])))) = 3"
  using indexMarkers_count [of "[[createMarkerSearchDoc ex_db ex_marker]]" "Some 2" ex_db
      "[ex_marker, ex_marker2, ex_marker3]"]
  by simp

text \<open>
  C2. With a positive slice size \<open>s\<close>, the batches \<^verbatim>\<open>indexMarkers\<close> sends to the index
  are, in order, the documents of the markers cut into batches: every batch but the last
  holds exactly \<open>s\<close> documents, and the last is not empty and holds at most \<open>s\<close>.
  For \<open>s\<close> markers this is one batch of all \<open>s\<close> documents; for \<open>s + 1\<close> markers
  it is a batch of the first \<open>s\<close> documents and then a batch of the last one. An index
  that was not empty keeps what it had, before the new batches.
\<close>

theorem indexMarkers_flushes:
  assumes "0 < sliceSize argv"
  shows "concat (flushes argv db markers) = map (createMarkerSearchDoc db) markers
       \<and> (\<forall>b \<in> set (flushes argv db markers). b \<noteq> [] \<and> int (length b) \<le> sliceSize argv)
       \<and> (\<forall>b \<in> set (butlast (flushes argv db markers)). int (length b) = sliceSize argv)
       \<and> (int (length markers) = sliceSize argv \<longrightarrow>
            flushes argv db markers = [map (createMarkerSearchDoc db) markers])
       \<and> (int (length markers) = sliceSize argv + 1 \<longrightarrow>
            flushes argv db markers =
              [map (createMarkerSearchDoc db) (butlast markers),
               [createMarkerSearchDoc db (last markers)]])
       \<and> snd (indexMarkers argv db idx markers) = idx @ flushes argv db markers"
proof -
  let ?s = "sliceSize argv"
  let ?f = "createMarkerSearchDoc db"
  have general: "\<exists>new docs. snd (indexMarkers argv db idx0 markers)
          = idx0 @ new @ (if docs = [] then [] else [docs])
        \<and> (\<forall>b \<in> set new. int (length b) = ?s) \<and> concat new @ docs = map ?f markers
        \<and> int (length docs) < ?s" for idx0
  proof -
    obtain docs n idx1 where
      run: "indexMarkers_loop db ?s markers ([], 0, idx0) = (docs, n, idx1)"
      by (cases "indexMarkers_loop db ?s markers ([], 0, idx0)") auto
    have "int (length ([] :: marker_search_doc list)) < ?s"
      using assms by simp
    from indexMarkers_loop_invariant [OF assms this run] obtain new where
      new: "idx1 = idx0 @ new" "\<forall>b \<in> set new. int (length b) = ?s"
        "concat new @ docs = map ?f markers" "int (length docs) < ?s"
      by auto
    have "snd (indexMarkers argv db idx0 markers) = idx0 @ new @ (if docs = [] then [] else [docs])"
      by (simp add: indexMarkers_snd run new(1))
    with new show ?thesis by blast
  qed
  from general [of "[]"] obtain new docs where
    fl: "flushes argv db markers = new @ (if docs = [] then [] else [docs])"
    and new: "\<forall>b \<in> set new. int (length b) = ?s" "concat new @ docs = map ?f markers"
      "int (length docs) < ?s"
    unfolding flushes_def by auto
  have c1: "concat (flushes argv db markers) = map ?f markers"
    using new(2) by (auto simp: fl)
  have c2: "\<forall>b \<in> set (flushes argv db markers). b \<noteq> [] \<and> int (length b) \<le> ?s"
    using new(1,3) assms by (auto simp: fl)
  have c3: "\<forall>b \<in> set (butlast (flushes argv db markers)). int (length b) = ?s"
    using new(1) by (auto simp: fl butlast_append dest: in_set_butlastD)
  have c4: "flushes argv db markers = [map ?f markers]" if len: "int (length markers) = ?s"
  proof -
    have ne: "markers \<noteq> []"
      using len assms by auto
    have "indexMarkers_loop db ?s markers ([], 0, []) =
        ([], 0 + (length ([] :: marker_search_doc list) + length markers), [] @ [[] @ map ?f markers])"
      by (rule indexMarkers_loop_reach [OF ne]) (simp add: len)
    then show ?thesis
      by (simp add: flushes_def indexMarkers_snd)
  qed
  have c5: "flushes argv db markers = [map ?f (butlast markers), [?f (last markers)]]"
    if len: "int (length markers) = ?s + 1"
  proof -
    have ne: "markers \<noteq> []"
      using len assms by auto
    then have split: "markers = butlast markers @ [last markers]"
      by simp
    have ne': "butlast markers \<noteq> []"
      using len assms by (cases markers rule: rev_cases) auto
    have lb: "int (length ([] :: marker_search_doc list) + length (butlast markers)) = ?s"
      using len assms by (cases markers rule: rev_cases) auto
    have "indexMarkers_loop db ?s (butlast markers) ([], 0, []) =
        ([], 0 + (length ([] :: marker_search_doc list) + length (butlast markers)),
         [] @ [[] @ map ?f (butlast markers)])"
      by (rule indexMarkers_loop_reach [OF ne' lb])
    then have "indexMarkers_loop db ?s (butlast markers @ [last markers]) ([], 0, []) =
        (if ?s = 1 then ([], length (butlast markers) + 1,
             [map ?f (butlast markers), [?f (last markers)]])
         else ([?f (last markers)], length (butlast markers), [map ?f (butlast markers)]))"
      unfolding indexMarkers_loop_append
      by (simp add: Let_def addMarkerSearchDocs_def)
    then have "indexMarkers_loop db ?s markers ([], 0, []) =
        (if ?s = 1 then ([], length (butlast markers) + 1,
             [map ?f (butlast markers), [?f (last markers)]])
         else ([?f (last markers)], length (butlast markers), [map ?f (butlast markers)]))"
      using split by simp
    then show ?thesis
      by (simp add: flushes_def indexMarkers_snd)
  qed
  have c6: "snd (indexMarkers argv db idx markers) = idx @ flushes argv db markers"
  proof -
    have "indexMarkers_loop db ?s markers (docs0, n0, idx0 @ idx) =
        (case indexMarkers_loop db ?s markers (docs0, n0, idx) of
           (d, n, i) \<Rightarrow> (d, n, idx0 @ i))" for docs0 n0 idx0 idx
      by (induction markers arbitrary: docs0 n0 idx)
        (simp_all add: Let_def addMarkerSearchDocs_def)
    from this [of "[]" 0 idx "[]"] show ?thesis
      by (simp add: flushes_def indexMarkers_snd split: prod.splits)
  qed
  from c1 c2 c3 c4 c5 c6 show ?thesis by blast
qed

theorem indexMarkers_flushes_witness:
  "0 < sliceSize (Some 2)
   \<and> flushes (Some 2) ex_db [ex_marker, ex_marker2] =
       [[createMarkerSearchDoc ex_db ex_marker, createMarkerSearchDoc ex_db ex_marker2]]
   \<and> flushes (Some 2) ex_db [ex_marker, ex_marker2, ex_marker3] =
       [[createMarkerSearchDoc ex_db ex_marker, createMarkerSearchDoc ex_db ex_marker2],
        [createMarkerSearchDoc ex_db ex_marker3]]"
proof -
  have s: "0 < sliceSize (Some 2)"
    by (simp add: sliceSize_def)
  have s2: "sliceSize (Some 2) = 2"
    by (simp add: sliceSize_def)
  from indexMarkers_flushes [OF s, where db = ex_db and markers = "[ex_marker, ex_marker2]"
      and idx = "[]"]
  have a: "flushes (Some 2) ex_db [ex_marker, ex_marker2] =
       [[createMarkerSearchDoc ex_db ex_marker, createMarkerSearchDoc ex_db ex_marker2]]"
    by (simp add: s2)
  from indexMarkers_flushes [OF s, where db = ex_db
      and markers = "[ex_marker, ex_marker2, ex_marker3]" and idx = "[]"]
  have b: "flushes (Some 2) ex_db [ex_marker, ex_marker2, ex_marker3] =
       [[createMarkerSearchDoc ex_db ex_marker, createMarkerSearchDoc ex_db ex_marker2],
        [createMarkerSearchDoc ex_db ex_marker3]]"
    by (simp add: s2)
  from s a b show ?thesis by blast
qed

section \<open>Facts about the search document\<close>

lemma find_remove:
  "find (\<lambda>l. la_id l = i) (database_remove ls (\<lambda>l. la_id l = L)) =
     (if i = L then None else find (\<lambda>l. la_id l = i) ls)"
  by (induction ls) (auto simp: database_remove_def)

lemma Label_getById_remove:
  "Label_getById (Label_remove db L) i = (if i = L then None else Label_getById db i)"
  by (simp add: Label_getById_def Label_remove_def database_findOne_def find_remove)

lemma Label_getById_id: "Label_getById db i = Some l \<Longrightarrow> la_id l = i"
  by (auto simp: Label_getById_def database_findOne_def find_Some_iff)

lemma Label_getById_self: "Label_getById db i = Some l \<Longrightarrow> Label_getById db (la_id l) = Some l"
  by (frule Label_getById_id) simp

lemma filter_Boolean_remove:
  "filter_Boolean (map (\<lambda>r. Label_getById (Label_remove db L) (cr_to r)) rs) =
     filter (\<lambda>l. la_id l \<noteq> L) (filter_Boolean (map (\<lambda>r. Label_getById db (cr_to r)) rs))"
proof (induction rs)
  case Nil
  then show ?case by simp
next
  case (Cons r rs)
  show ?case
  proof (cases "Label_getById db (cr_to r)")
    case None
    then show ?thesis
      using Cons.IH by (simp add: Label_getById_remove)
  next
    case (Some l)
    then have "la_id l = cr_to r"
      by (rule Label_getById_id)
    then show ?thesis
      using Cons.IH Some by (simp add: Label_getById_remove)
  qed
qed

lemma getLabels_remove:
  "getLabels (Label_remove db L) m = filter (\<lambda>l. la_id l \<noteq> L) (getLabels db m)"
proof -
  have "CrossReference_getBySource (Label_remove db L) (mk_id m) =
      CrossReference_getBySource db (mk_id m)"
    by (simp add: CrossReference_getBySource_def Label_remove_def)
  then show ?thesis
    by (simp add: getLabels_def mapAsync_def filter_Boolean_remove)
qed

lemma getLabels_resolved:
  "l \<in> set (getLabels db m) \<Longrightarrow> Label_getById db (la_id l) = Some l"
proof -
  have "l \<in> set (filter_Boolean (map (\<lambda>r. Label_getById db (cr_to r)) rs)) \<Longrightarrow>
      Label_getById db (la_id l) = Some l" for rs
  proof (induction rs)
    case Nil
    then show ?case by simp
  next
    case (Cons r rs)
    then show ?case
      by (cases "Label_getById db (cr_to r)") (auto dest: Label_getById_self)
  qed
  then show "l \<in> set (getLabels db m) \<Longrightarrow> Label_getById db (la_id l) = Some l"
    by (simp add: getLabels_def mapAsync_def)
qed

lemma scene_actors_remove:
  "Scene_getById (Label_remove db L) i = Scene_getById db i"
  "Scene_getActors (Label_remove db L) sc = Scene_getActors db sc"
  by (simp_all add: Scene_getById_def Scene_getActors_def Label_remove_def
      CrossReference_getBySource_def Actor_getById_def mapAsync_def split: option.splits)

text \<open>
  C8. The document of a marker built after a label was removed from the label store is
  the document built before with that label's identifier taken out of \<open>labels\<close> and
  its name and aliases taken out of \<open>labelNames\<close>: \<^verbatim>\<open>Marker.getLabels\<close> returns the
  labels it returned before except the removed one. In any store, an identifier that
  resolves to no label is not among the \<open>labels\<close> of a document. The builder returns a
  document in every case.
\<close>

theorem createMarkerSearchDoc_label_removed:
  "getLabels (Label_remove db L) m = filter (\<lambda>l. la_id l \<noteq> L) (getLabels db m)
   \<and> createMarkerSearchDoc (Label_remove db L) m =
       (createMarkerSearchDoc db m)
         \<lparr>d_labels := map la_id (filter (\<lambda>l. la_id l \<noteq> L) (getLabels db m)),
          d_labelNames :=
            concat (map (\<lambda>l. la_name l # la_aliases l)
              (filter (\<lambda>l. la_id l \<noteq> L) (getLabels db m)))\<rparr>
   \<and> L \<notin> set (d_labels (createMarkerSearchDoc (Label_remove db L) m))
   \<and> (Label_getById db i = None \<longrightarrow> i \<notin> set (d_labels (createMarkerSearchDoc db m)))"
proof -
  have doc: "createMarkerSearchDoc (Label_remove db L) m =
       (createMarkerSearchDoc db m)
         \<lparr>d_labels := map la_id (filter (\<lambda>l. la_id l \<noteq> L) (getLabels db m)),
          d_labelNames :=
            concat (map (\<lambda>l. la_name l # la_aliases l)
              (filter (\<lambda>l. la_id l \<noteq> L) (getLabels db m)))\<rparr>"
    by (simp add: createMarkerSearchDoc_def Let_def getLabels_remove scene_actors_remove)
  have absent: "L \<notin> set (d_labels (createMarkerSearchDoc (Label_remove db L) m))"
    by (auto simp: doc)
  have dangling: "i \<notin> set (d_labels (createMarkerSearchDoc db m))"
    if "Label_getById db i = None"
    using that by (auto simp: createMarkerSearchDoc_def Let_def dest: getLabels_resolved)
  from getLabels_remove doc absent dangling show ?thesis by blast
qed

theorem createMarkerSearchDoc_label_removed_witness:
  "Label_getById (Label_remove ex_db ''la_1'') ''la_1'' = None
   \<and> d_labels (createMarkerSearchDoc ex_db ex_marker) = [''la_1'', ''la_2'']
   \<and> d_labels (createMarkerSearchDoc (Label_remove ex_db ''la_1'') ex_marker) = [''la_2'']
   \<and> d_labelNames (createMarkerSearchDoc (Label_remove ex_db ''la_1'') ex_marker) = [''night'']
   \<and> ''la_1'' \<notin> set (d_labels (createMarkerSearchDoc (Label_remove ex_db ''la_1'') ex_marker))"
proof -
  have g: "getLabels ex_db ex_marker =
      [\<lparr>la_id = ''la_1'', la_name = ''outdoor'', la_aliases = [''outside'']\<rparr>,
       \<lparr>la_id = ''la_2'', la_name = ''night'', la_aliases = []\<rparr>]"
    by (simp add: getLabels_def mapAsync_def CrossReference_getBySource_def database_find_def
        Label_getById_def database_findOne_def startsWith_def ex_db_def ex_marker_def)
  have n: "Label_getById (Label_remove ex_db ''la_1'') ''la_1'' = None"
    by (simp add: Label_getById_remove)
  have b: "d_labels (createMarkerSearchDoc ex_db ex_marker) = [''la_1'', ''la_2'']"
    by (simp add: createMarkerSearchDoc_def Let_def g)
  from createMarkerSearchDoc_label_removed
    [where db = ex_db and L = "''la_1''" and m = ex_marker
       and i = "''la_1''"]
  have "createMarkerSearchDoc (Label_remove ex_db ''la_1'') ex_marker =
       (createMarkerSearchDoc ex_db ex_marker)
         \<lparr>d_labels := map la_id (filter (\<lambda>l. la_id l \<noteq> ''la_1'') (getLabels ex_db ex_marker)),
          d_labelNames :=
            concat (map (\<lambda>l. la_name l # la_aliases l)
              (filter (\<lambda>l. la_id l \<noteq> ''la_1'') (getLabels ex_db ex_marker)))\<rparr>"
    by blast
  then have c: "d_labels (createMarkerSearchDoc (Label_remove ex_db ''la_1'') ex_marker) = [''la_2'']"
    "d_labelNames (createMarkerSearchDoc (Label_remove ex_db ''la_1'') ex_marker) = [''night'']"
    by (simp_all add: g)
  from createMarkerSearchDoc_label_removed
    [where db = "Label_remove ex_db ''la_1''" and L = "''la_1''" and m = ex_marker
       and i = "''la_1''"] n
  have "''la_1'' \<notin> set (d_labels (createMarkerSearchDoc (Label_remove ex_db ''la_1'') ex_marker))"
    by blast
  with n b c show ?thesis by blast
qed

text \<open>
  C3. For a marker whose scene is not in the scene store, \<^verbatim>\<open>createMarkerSearchDoc\<close>
  returns a document: its scene identifier and scene name are the empty string, its
  actor fields are empty, and its own fields and its labels are those of the marker.
\<close>

theorem createMarkerSearchDoc_scene_deleted:
  assumes "Scene_getById db (mk_scene m) = None"
  shows "createMarkerSearchDoc db m =
     \<lparr>d_id = mk_id m, d_addedOn = mk_addedOn m, d_name = mk_name m,
      d_actors = [], d_actorNames = [],
      d_labels = map la_id (getLabels db m),
      d_labelNames = concat (map (\<lambda>l. la_name l # la_aliases l) (getLabels db m)),
      d_rating = mk_rating m, d_bookmark = mk_bookmark m, d_favorite = mk_favorite m,
      d_scene = '''', d_sceneName = ''''\<rparr>"
  using assms by (simp add: createMarkerSearchDoc_def Let_def Scene_getActors_def)

theorem createMarkerSearchDoc_scene_deleted_witness:
  "Scene_getById ex_db (mk_scene ex_marker3) = None
   \<and> createMarkerSearchDoc ex_db ex_marker3 =
     \<lparr>d_id = ''mk_3'', d_addedOn = 3, d_name = ''end'',
      d_actors = [], d_actorNames = [], d_labels = [], d_labelNames = [],
      d_rating = 0, d_bookmark = None, d_favorite = False,
      d_scene = '''', d_sceneName = ''''\<rparr>"
proof -
  have s: "Scene_getById ex_db (mk_scene ex_marker3) = None"
    by (simp add: Scene_getById_def database_findOne_def ex_db_def ex_marker3_def)
  have g: "getLabels ex_db ex_marker3 = []"
    by (simp add: getLabels_def mapAsync_def CrossReference_getBySource_def database_find_def
        ex_db_def ex_marker3_def)
  from createMarkerSearchDoc_scene_deleted [OF s]
  have "createMarkerSearchDoc ex_db ex_marker3 =
     \<lparr>d_id = mk_id ex_marker3, d_addedOn = mk_addedOn ex_marker3, d_name = mk_name ex_marker3,
      d_actors = [], d_actorNames = [], d_labels = [], d_labelNames = [],
      d_rating = mk_rating ex_marker3, d_bookmark = mk_bookmark ex_marker3,
      d_favorite = mk_favorite ex_marker3, d_scene = '''', d_sceneName = ''''\<rparr>"
    by (simp add: g)
  moreover have "mk_id ex_marker3 = ''mk_3''" "mk_addedOn ex_marker3 = 3"
    "mk_name ex_marker3 = ''end''" "mk_rating ex_marker3 = 0" "mk_bookmark ex_marker3 = None"
    "mk_favorite ex_marker3 = False"
    by (simp_all add: ex_marker3_def)
  ultimately show ?thesis
    using s by simp
qed

section \<open>Facts about query translation\<close>

lemma r_sort_searchRequest:
  "r_sort (searchRequest ps opts seed_opt) =
     sortOptions opts (case seed_opt of None \<Rightarrow> ''default'' | Some s \<Rightarrow> s)"
  by (simp add: searchRequest_def Let_def)

lemma sortOptions_shuffle:
  "q_sortBy opts = Some ''$shuffle'' \<Longrightarrow>
   sortOptions opts seed =
     Some \<lparr>sort_by = ''$shuffle'', sort_asc = False, sort_type = Str seed\<rparr>"
  by (simp add: sortOptions_def)

lemma sortOptions_shuffle_seed:
  "q_sortBy opts = Some ''$shuffle'' \<Longrightarrow>
   (sortOptions opts seed = sortOptions opts seed') = (seed = seed')"
  by (simp add: sortOptions_shuffle)

lemma sortType_of_recognized:
  "sortType_of ''addedOn'' = Str ''number''" "sortType_of ''name'' = Str ''string''"
  "sortType_of ''rating'' = Str ''number''" "sortType_of ''bookmark'' = Str ''number''"
  by (simp_all add: sortType_of_def sortTypes_def)

lemma sortType_of_unknown:
  "k \<notin> set (map fst sortTypes) \<Longrightarrow> k \<notin> set Object_prototype_members \<Longrightarrow>
   sortType_of k = Undefined"
  by (simp add: sortType_of_def map_of_eq_None_iff [THEN iffD2])

text \<open>
  C4, as the code has it. For a query whose \<open>sortBy\<close> is a non-empty key other than the
  shuffle marker, \<^verbatim>\<open>searchMarkers\<close> does not fail: it calls the index engine, with a
  sort whose \<open>sort_by\<close> is the key as given, whose \<open>sort_asc\<close> says whether
  \<open>sortDir\<close> is \<^verbatim>\<open>"asc"\<close>, and whose \<open>sort_type\<close> is what the object of sort types
  yields for the key; that is \<^verbatim>\<open>undefined\<close> for a key that is neither one of the four
  sort keys nor a member of \<^verbatim>\<open>Object.prototype\<close>.
\<close>

theorem searchMarkers_unrecognized_sort_key:
  assumes "q_sortBy opts = Some k" and "k \<noteq> ''''" and "k \<noteq> ''$shuffle''"
  shows "searchMarkers search ps opts seed_opt = Inr (search (searchRequest ps opts seed_opt))
       \<and> r_sort (searchRequest ps opts seed_opt) =
           Some \<lparr>sort_by = k, sort_asc = (q_sortDir opts = Some ''asc''),
                 sort_type = sortType_of k\<rparr>
       \<and> (k \<notin> set (map fst sortTypes) \<and> k \<notin> set Object_prototype_members \<longrightarrow>
            sortType_of k = Undefined)"
  using assms
  by (simp add: searchMarkers_def r_sort_searchRequest sortOptions_def sortType_of_unknown)

theorem searchMarkers_unrecognized_sort_key_witness:
  "q_sortBy (ex_query\<lparr>q_sortBy := Some ''duration''\<rparr>) = Some ''duration''
   \<and> ''duration'' \<noteq> '''' \<and> ''duration'' \<noteq> ''$shuffle''
   \<and> ''duration'' \<notin> set (map fst sortTypes) \<and> ''duration'' \<notin> set Object_prototype_members
   \<and> r_sort (searchRequest 24 (ex_query\<lparr>q_sortBy := Some ''duration''\<rparr>) None) =
       Some \<lparr>sort_by = ''duration'', sort_asc = False, sort_type = Undefined\<rparr>"
proof -
  have h: "q_sortBy (ex_query\<lparr>q_sortBy := Some ''duration''\<rparr>) = Some ''duration''"
    "''duration'' \<noteq> ''''" "''duration'' \<noteq> ''$shuffle''"
    by simp_all
  have u: "''duration'' \<notin> set (map fst sortTypes) \<and> ''duration'' \<notin> set Object_prototype_members"
    by (simp add: sortTypes_def Object_prototype_members_def)
  have d: "q_sortDir (ex_query\<lparr>q_sortBy := Some ''duration''\<rparr>) = None"
    by (simp add: ex_query_def)
  from searchMarkers_unrecognized_sort_key [OF h, of "\<lambda>r. r" 24 None] u d
  have "r_sort (searchRequest 24 (ex_query\<lparr>q_sortBy := Some ''duration''\<rparr>) None) =
       Some \<lparr>sort_by = ''duration'', sort_asc = False, sort_type = Undefined\<rparr>"
    by simp
  with h u show ?thesis by blast
qed

text \<open>
  C4, as the claim states it, fails: for the sort key \<^verbatim>\<open>"duration"\<close>, which is neither
  the shuffle marker nor one of the four sort keys, \<^verbatim>\<open>searchMarkers\<close> returns what the
  engine returns for a query with that key and an undefined sort type, and no
  \<open>InvalidSortKey\<close>.
\<close>

theorem searchMarkers_unrecognized_sort_key_counterexample:
  "searchMarkers (\<lambda>r. r) 24 (ex_query\<lparr>q_sortBy := Some ''duration''\<rparr>) None =
     Inr \<lparr>r_query = Some ''intro'',
          r_sort = Some \<lparr>sort_by = ''duration'', sort_asc = False, sort_type = Undefined\<rparr>,
          r_filter = Grouping ''AND'' [], r_skip = 0, r_take = 24\<rparr>
   \<and> searchMarkers (\<lambda>r. r) 24 (ex_query\<lparr>q_sortBy := Some ''duration''\<rparr>) None
       \<noteq> Inl InvalidSortKey"
  by (simp add: searchMarkers_def searchRequest_def Let_def sortOptions_def sortType_of_def
      sortTypes_def Object_prototype_members_def searchFilter_def filterFavorites_def
      filterBookmark_def filterRating_def filterInclude_def filterExclude_def
      buildPagination_def ex_query_def)

text \<open>
  C6. \<^verbatim>\<open>buildPagination\<close> with only a page \<open>p\<close> gives skip \<open>p * s\<close> and take \<open>s\<close>
  for the page size \<open>s\<close>; with an explicit skip and take it gives those, whatever the
  page; with nothing it gives skip 0 and take \<open>s\<close>. So page 2 gives what the explicit
  skip \<open>2 * s\<close> and take \<open>s\<close> give. \<^verbatim>\<open>searchMarkers\<close> passes the pair on to the
  engine.
\<close>

theorem buildPagination_normalizes:
  "buildPagination s None None (Some p) = \<lparr>p_skip = p * s, p_take = s\<rparr>
   \<and> buildPagination s (Some tk) (Some sk) page_opt = \<lparr>p_skip = sk, p_take = tk\<rparr>
   \<and> buildPagination s None None None = \<lparr>p_skip = 0, p_take = s\<rparr>
   \<and> buildPagination s None None (Some 2) = buildPagination s (Some s) (Some (2 * s)) page_opt
   \<and> r_skip (searchRequest s opts seed_opt) =
       p_skip (buildPagination s (q_take opts) (q_skip opts) (q_page opts))
   \<and> r_take (searchRequest s opts seed_opt) =
       p_take (buildPagination s (q_take opts) (q_skip opts) (q_page opts))"
  by (simp add: buildPagination_def searchRequest_def Let_def)

theorem buildPagination_normalizes_witness:
  "buildPagination 24 None None (Some 3) = \<lparr>p_skip = 72, p_take = 24\<rparr>
   \<and> buildPagination 24 (Some 10) (Some 5) (Some 3) = \<lparr>p_skip = 5, p_take = 10\<rparr>
   \<and> buildPagination 24 None None None = \<lparr>p_skip = 0, p_take = 24\<rparr>"
  using buildPagination_normalizes [of 24 3 10 5 "Some 3" ex_query None]
  by simp

text \<open>
  C7. The filter tree of \<^verbatim>\<open>searchMarkers\<close> is a grouping of type \<^verbatim>\<open>AND\<close> whose children
  are, in this order, one predicate for each of favorite, bookmark, rating, include and
  exclude that the query has a value for, and nothing for the others: as many children
  as the query has filters, and none for a query without filters.
\<close>

theorem searchMarkers_filter_tree:
  "r_filter (searchRequest ps opts seed_opt) =
     Grouping ''AND''
       ((case q_favorite opts of None \<Rightarrow> [] | Some b \<Rightarrow> [Leaf (FavoriteIs b)])
        @ (case q_bookmark opts of None \<Rightarrow> [] | Some b \<Rightarrow> [Leaf (BookmarkExists b)])
        @ (case q_rating opts of None \<Rightarrow> [] | Some n \<Rightarrow> [Leaf (RatingAtLeast n)])
        @ (case q_include opts of None \<Rightarrow> [] | Some ids \<Rightarrow> [Leaf (IncludesAll ids)])
        @ (case q_exclude opts of None \<Rightarrow> [] | Some ids \<Rightarrow> [Leaf (ExcludesAll ids)]))
   \<and> length (children (r_filter (searchRequest ps opts seed_opt))) = activeFilters opts
   \<and> (activeFilters opts = 0 \<longrightarrow>
        r_filter (searchRequest ps opts seed_opt) = Grouping ''AND'' [])"
proof -
  have tree: "searchFilter opts =
     Grouping ''AND''
       ((case q_favorite opts of None \<Rightarrow> [] | Some b \<Rightarrow> [Leaf (FavoriteIs b)])
        @ (case q_bookmark opts of None \<Rightarrow> [] | Some b \<Rightarrow> [Leaf (BookmarkExists b)])
        @ (case q_rating opts of None \<Rightarrow> [] | Some n \<Rightarrow> [Leaf (RatingAtLeast n)])
        @ (case q_include opts of None \<Rightarrow> [] | Some ids \<Rightarrow> [Leaf (IncludesAll ids)])
        @ (case q_exclude opts of None \<Rightarrow> [] | Some ids \<Rightarrow> [Leaf (ExcludesAll ids)]))"
    by (simp add: searchFilter_def Let_def filterFavorites_def filterBookmark_def
        filterRating_def filterInclude_def filterExclude_def split: option.splits)
  have req: "r_filter (searchRequest ps opts seed_opt) = searchFilter opts"
    by (simp add: searchRequest_def Let_def)
  have len: "length (children (searchFilter opts)) = activeFilters opts"
    unfolding tree by (simp add: activeFilters_def split: option.splits)
  have none: "searchFilter opts = Grouping ''AND'' []" if "activeFilters opts = 0"
    using that unfolding tree by (simp add: activeFilters_def split: option.splits if_splits)
  from tree len none show ?thesis
    unfolding req by blast
qed

theorem searchMarkers_filter_tree_witness:
  "activeFilters ex_query = 0
   \<and> r_filter (searchRequest 24 ex_query None) = Grouping ''AND'' []
   \<and> r_filter (searchRequest 24 (ex_query\<lparr>q_favorite := Some True, q_rating := Some 4\<rparr>) None)
       = Grouping ''AND'' [Leaf (FavoriteIs True), Leaf (RatingAtLeast 4)]"
proof -
  have a: "activeFilters ex_query = 0"
    by (simp add: activeFilters_def ex_query_def)
  from searchMarkers_filter_tree [of 24 ex_query None] a
  have b: "r_filter (searchRequest 24 ex_query None) = Grouping ''AND'' []"
    by blast
  from searchMarkers_filter_tree
    [of 24 "ex_query\<lparr>q_favorite := Some True, q_rating := Some 4\<rparr>" None]
  have c: "r_filter (searchRequest 24 (ex_query\<lparr>q_favorite := Some True, q_rating := Some 4\<rparr>) None)
       = Grouping ''AND'' [Leaf (FavoriteIs True), Leaf (RatingAtLeast 4)]"
    by (simp add: ex_query_def)
  from a b c show ?thesis by blast
qed

end
